theory Spec2Isabelle
  imports Complex_Main "HOL-Library.Log_Nat" "HOL-Library.Code_Target_Numeral"
begin

section \<open>JavaScript numbers\<close>

text \<open>
  A JavaScript number is an IEEE-754 binary64 value. A finite one is modelled as the
  rational it denotes; every arithmetic operation rounds its exact result to 53
  significant bits, to nearest, ties to even (\<open>fl\<close>). The exponent range is not modelled:
  the quantities below (word counts, seconds, pixel coordinates) stay far from overflow
  and underflow. NaN and the two infinities are the single value \<open>NonFinite\<close>.
\<close>

definition round_half_even :: "rat \<Rightarrow> int" where
  "round_half_even x =
     (let f = \<lfloor>x\<rfloor>; d = x - of_int f
      in if d < 1 / 2 then f else if 1 / 2 < d then f + 1 else if even f then f else f + 1)"

text \<open>\<open>binade x\<close> is the exponent \<open>e\<close> with \<open>2 powi e \<le> \<bar>x\<bar> < 2 powi (e + 1)\<close>, for \<open>x \<noteq> 0\<close>.\<close>

definition binade :: "rat \<Rightarrow> int" where
  "binade x =
     (let (p, q) = quotient_of \<bar>x\<bar>;
          k = int (floorlog 2 (nat p)) - int (floorlog 2 (nat q))
      in if 2 powi k \<le> \<bar>x\<bar> then k else k - 1)"

definition fl :: "rat \<Rightarrow> rat" where
  "fl x = (if x = 0 then 0
           else let u = 2 powi (binade x - 52) in of_int (round_half_even (x / u)) * u)"




section \<open>JavaScript strings\<close>

text \<open>
  The text to speak is a sequence of UTF-16 code units. \<open>is_ws\<close> is the class that both
  \<open>String.prototype.trim\<close> and the regular expression \<open>\s\<close> use (white space and line
  terminators). Messages and object keys are ASCII and are written as \<open>string\<close>.
\<close>

type_synonym utf16 = "nat list"

definition is_ws :: "nat \<Rightarrow> bool" where
  "is_ws c \<longleftrightarrow>
     c \<in> {9, 10, 11, 12, 13, 32, 160, 5760, 8232, 8233, 8239, 8287, 12288, 65279}
     \<or> (8192 \<le> c \<and> c \<le> 8202)"

definition trim :: "utf16 \<Rightarrow> utf16" where
  "trim s = rev (dropWhile is_ws (rev (dropWhile is_ws s)))"

text \<open>
  \<open>s.split(/\s+/)\<close>: the pieces between maximal runs of white space. A run at either end
  yields an empty piece there, and the empty string yields one empty piece.
\<close>

fun split_ws :: "utf16 \<Rightarrow> utf16 list" where
  "split_ws [] = [[]]"
| "split_ws (c # cs) =
     (if is_ws c then
        (case cs of
           [] \<Rightarrow> [] # split_ws cs
         | d # _ \<Rightarrow> if is_ws d then split_ws cs else [] # split_ws cs)
      else
        (case split_ws cs of
           [] \<Rightarrow> [[c]]
         | w # ws \<Rightarrow> (c # w) # ws))"

fun starts_with :: "string \<Rightarrow> string \<Rightarrow> bool" where
  "starts_with s [] = True"
| "starts_with [] (p # ps) = False"
| "starts_with (c # cs) (p # ps) = (c = p \<and> starts_with cs ps)"

text \<open>\<open>s.includes(p)\<close>\<close>

fun str_includes :: "string \<Rightarrow> string \<Rightarrow> bool" where
  "str_includes [] p = (p = [])"
| "str_includes (c # cs) p = (starts_with (c # cs) p \<or> str_includes cs p)"

section \<open>Object literals as lookup tables\<close>

text \<open>
  \<open>voiceMapping?.[character]\<close> reads a property of an object literal. The literal inherits
  from \<open>Object.prototype\<close>, so a key that is not an own property but names a property of
  \<open>Object.prototype\<close> reads that inherited member (a function, or for \<open>__proto__\<close> the
  prototype object), which is truthy. Any other key reads \<open>undefined\<close>.
\<close>

datatype jsval = Str string | Num rat | Inherited string

definition objectPrototypeKeys :: "string list" where
  "objectPrototypeKeys =
     [''constructor'', ''__defineGetter__'', ''__defineSetter__'', ''hasOwnProperty'',
      ''__lookupGetter__'', ''__lookupSetter__'', ''isPrototypeOf'', ''propertyIsEnumerable'',
      ''toString'', ''valueOf'', ''__proto__'', ''toLocaleString'']"

definition get_property :: "(string \<times> jsval) list \<Rightarrow> string \<Rightarrow> jsval option" where
  "get_property own k =
     (case map_of own k of
        Some v \<Rightarrow> Some v
      | None \<Rightarrow> if k \<in> set objectPrototypeKeys then Some (Inherited k) else None)"

fun truthy :: "jsval \<Rightarrow> bool" where
  "truthy (Str s) = (s \<noteq> [])"
| "truthy (Num n) = (n \<noteq> 0)"
| "truthy (Inherited k) = True"

text \<open>\<open>a || b\<close> where \<open>a\<close> may be \<open>undefined\<close>\<close>

definition js_or :: "jsval option \<Rightarrow> jsval \<Rightarrow> jsval" where
  "js_or a b = (case a of None \<Rightarrow> b | Some v \<Rightarrow> if truthy v then v else b)"

section \<open>TTSService\<close>

record VoiceSettings =
  voiceStyle :: string
  voiceSpeed :: string
  voicePitch :: string
  emotion :: string
  character :: string

record TtsSettings =
  voice :: jsval
  speed :: jsval
  model :: string

definition voiceMapping :: "(string \<times> jsval) list" where
  "voiceMapping =
     [(''chloe'', Str ''alloy''), (''kelly'', Str ''echo''), (''racheal'', Str ''fable''),
      (''david'', Str ''onyx''), (''alex'', Str ''nova''), (''sarah'', Str ''shimmer'')]"

definition speedMapping :: "(string \<times> jsval) list" where
  "speedMapping = [(''slow'', Num (3 / 4)), (''normal'', Num 1), (''fast'', Num (5 / 4))]"

definition mapVoiceSettings :: "VoiceSettings \<Rightarrow> TtsSettings" where
  "mapVoiceSettings settings =
     \<lparr>voice = js_or (get_property voiceMapping (character settings)) (Str ''alloy''),
      speed = js_or (get_property speedMapping (voiceSpeed settings)) (Num 1),
      model = ''tts-1''\<rparr>"

text \<open>A thrown value; \<open>message\<close> is \<open>None\<close> when it has no such property.\<close>

datatype js_error = JsError (message: "string option")

record SpeechRequest =
  req_model :: string
  req_voice :: jsval
  req_input :: utf16
  req_speed :: jsval
  response_format :: string

text \<open>The vendor's response; reading its body (\<open>arrayBuffer()\<close>) gives the bytes or rejects.\<close>

datatype response = Response (arrayBuffer: "js_error + nat list")

text \<open>
  What the service reads from its surroundings: the configured key
  (\<open>import.meta.env.VITE_OPENAI_API_KEY\<close>, \<open>None\<close> when undefined), the vendor call
  \<open>openai.audio.speech.create\<close>, which resolves with a response or rejects, and
  \<open>URL.createObjectURL\<close>.
\<close>

record environment =
  VITE_OPENAI_API_KEY :: "string option"
  speech_create :: "SpeechRequest \<Rightarrow> js_error + response"
  createObjectURL :: "nat list \<Rightarrow> string"

datatype event =
  Progress nat
| VendorRequest SpeechRequest
| ConsoleError string js_error
| ConsoleWarn string js_error
| SetTimeout nat

record GenerationResult =
  audioUrl :: string
  audioBlob :: "nat list"
  duration :: int
  fileSize :: nat
  format :: string

text \<open>\<open>Math.ceil((wordCount / 150) * 60)\<close>\<close>

definition estimatedDuration :: "nat \<Rightarrow> int" where
  "estimatedDuration wordCount = \<lceil>fl (fl (of_nat wordCount / 150) * 60)\<rceil>"

definition wordCount :: "utf16 \<Rightarrow> nat" where
  "wordCount txt = length (split_ws (trim txt))"

definition key_missing :: "string option \<Rightarrow> bool" where
  "key_missing k =
     (case k of None \<Rightarrow> True | Some s \<Rightarrow> s = [] \<or> s = ''your-openai-api-key-here'')"

text \<open>
  \<open>onProgress?.(n)\<close>: the call is made when a callback was passed. The callback is taken
  to return normally, as the state setter the page passes does.
\<close>

definition report :: "bool \<Rightarrow> nat \<Rightarrow> event list" where
  "report onProgress n = (if onProgress then [Progress n] else [])"

text \<open>The \<open>try\<close> block of \<open>generateSpeech\<close>: its outcome and the events up to there.\<close>

definition generateSpeech_try ::
  "environment \<Rightarrow> utf16 \<Rightarrow> VoiceSettings \<Rightarrow> bool \<Rightarrow> (js_error + GenerationResult) \<times> event list"
where
  "generateSpeech_try env txt voiceSettings onProgress =
     (if key_missing (VITE_OPENAI_API_KEY env) then
        (Inl (JsError (Some
           ''OpenAI API key is not configured. Please add your API key to the .env file.'')), [])
      else if trim txt = [] then
        (Inl (JsError (Some ''Text content is required for speech generation.'')), [])
      else
        let ttsSettings = mapVoiceSettings voiceSettings;
            request = \<lparr>req_model = model ttsSettings, req_voice = voice ttsSettings,
                       req_input = txt, req_speed = speed ttsSettings,
                       response_format = ''mp3''\<rparr>;
            sent = report onProgress 10 @ report onProgress 30 @ [VendorRequest request]
        in case speech_create env request of
             Inl e \<Rightarrow> (Inl e, sent)
           | Inr resp \<Rightarrow>
               (case arrayBuffer resp of
                  Inl e \<Rightarrow> (Inl e, sent @ report onProgress 70)
                | Inr bytes \<Rightarrow>
                    (Inr \<lparr>audioUrl = createObjectURL env bytes, audioBlob = bytes,
                          duration = estimatedDuration (wordCount txt),
                          fileSize = length bytes, format = ''mp3''\<rparr>,
                     sent @ report onProgress 70 @ report onProgress 90
                       @ report onProgress 100)))"

text \<open>The \<open>catch\<close> block of \<open>generateSpeech\<close>: the error it throws for the one it caught.\<close>

definition generateSpeech_catch :: "js_error \<Rightarrow> js_error" where
  "generateSpeech_catch error =
     (case message error of
        None \<Rightarrow> JsError (Some ''Speech generation failed: Unknown error'')
      | Some m \<Rightarrow>
          if str_includes m ''API key'' then
            JsError (Some ''Invalid or missing OpenAI API key. Please check your configuration.'')
          else if str_includes m ''quota'' then
            JsError (Some ''OpenAI API quota exceeded. Please check your account limits.'')
          else if str_includes m ''network'' \<or> str_includes m ''fetch'' then
            JsError (Some
              ''Network error. Please check your internet connection and try again.'')
          else
            JsError (Some (''Speech generation failed: ''
              @ (if m = [] then ''Unknown error'' else m))))"

definition generateSpeech ::
  "environment \<Rightarrow> utf16 \<Rightarrow> VoiceSettings \<Rightarrow> bool \<Rightarrow> (js_error + GenerationResult) \<times> event list"
where
  "generateSpeech env txt voiceSettings onProgress =
     (case generateSpeech_try env txt voiceSettings onProgress of
        (Inr result, events) \<Rightarrow> (Inr result, events)
      | (Inl error, events) \<Rightarrow>
          (Inl (generateSpeech_catch error),
           events @ [ConsoleError ''TTS Generation Error:'' error]))"

text \<open>
  The body of \<open>generateSpeechWithGoogleCloud\<close> holds comments only: the \<open>throw\<close> statement
  stands on the line of a \<open>//\<close> comment and is part of it. The function resolves with
  \<open>undefined\<close> (\<open>None\<close>) and does nothing else.
\<close>

definition generateSpeechWithGoogleCloud ::
  "utf16 \<Rightarrow> VoiceSettings \<Rightarrow> bool \<Rightarrow> (js_error + GenerationResult option) \<times> event list"
where
  "generateSpeechWithGoogleCloud txt voiceSettings onProgress = (Inr None, [])"

definition generateSpeechWithFallback ::
  "environment \<Rightarrow> utf16 \<Rightarrow> VoiceSettings \<Rightarrow> bool
     \<Rightarrow> (js_error + GenerationResult option) \<times> event list"
where
  "generateSpeechWithFallback env txt voiceSettings onProgress =
     (case generateSpeech env txt voiceSettings onProgress of
        (Inr result, events) \<Rightarrow> (Inr (Some result), events)
      | (Inl openaiError, events) \<Rightarrow>
          (let warned = events @ [ConsoleWarn
                 ''OpenAI TTS failed, attempting Google Cloud TTS fallback:'' openaiError]
           in case generateSpeechWithGoogleCloud txt voiceSettings onProgress of
                (Inr result, events2) \<Rightarrow> (Inr result, warned @ events2)
              | (Inl googleError, events2) \<Rightarrow>
                  (Inl (JsError (Some
                     ''Both OpenAI and Google Cloud TTS services are unavailable. Please try again later.'')),
                   warned @ events2
                     @ [ConsoleError ''Google Cloud TTS also failed:'' googleError])))"

definition progress_values :: "event list \<Rightarrow> nat list" where
  "progress_values events = concat (map (\<lambda>e. case e of Progress n \<Rightarrow> [n] | _ \<Rightarrow> []) events)"

definition vendor_requests :: "event list \<Rightarrow> SpeechRequest list" where
  "vendor_requests events =
     concat (map (\<lambda>e. case e of VendorRequest r \<Rightarrow> [r] | _ \<Rightarrow> []) events)"

section \<open>SupabaseService\<close>

record AudioData =
  text_content :: utf16
  audio_url :: "string option"
  duration_seconds :: "int option"
  preset_id :: "string option"
  user_id :: string

text \<open>
  The insert either rejects or resolves with the pair \<open>{ data, error }\<close>; the client
  library is outside the repository and is a parameter of the service.
\<close>

datatype db_reply = DbReply (reply_data: "AudioData option") (reply_error: "js_error option")

definition saveAudioGeneration ::
  "(AudioData \<Rightarrow> js_error + db_reply) \<Rightarrow> AudioData
     \<Rightarrow> (js_error + AudioData option) \<times> event list"
where
  "saveAudioGeneration db_insert audioData =
     (case db_insert audioData of
        Inl e \<Rightarrow> (Inl e, [ConsoleError ''Error saving audio generation:'' e])
      | Inr reply \<Rightarrow>
          (case reply_error reply of
             Some e \<Rightarrow> (Inl e, [ConsoleError ''Error saving audio generation:'' e])
           | None \<Rightarrow> (Inr (reply_data reply), [])))"

section \<open>TextToSpeechGenerator\<close>

text \<open>
  The page's state. \<open>text_st\<close>, \<open>audioUrl_st\<close>, \<open>audioBlob_st\<close> are the state variables \<open>text\<close>,
  \<open>audioUrl\<close> and \<open>audioBlob\<close> (\<open>None\<close> is \<open>null\<close> or \<open>undefined\<close>); the five voice fields are kept together
  as \<open>getCurrentSettings()\<close> returns them.
\<close>

record PageState =
  text_st :: utf16
  settings :: VoiceSettings
  isGenerating :: bool
  progress :: nat
  audioUrl_st :: "string option"
  audioBlob_st :: "nat list option"
  error :: string
  currentPresetId :: "string option"

definition canGenerate :: "PageState \<Rightarrow> bool" where
  "canGenerate st \<longleftrightarrow>
     0 < length (trim (text_st st)) \<and> voiceStyle (settings st) \<noteq> [] \<and> voiceSpeed (settings st) \<noteq> []
     \<and> voicePitch (settings st) \<noteq> [] \<and> emotion (settings st) \<noteq> []
     \<and> character (settings st) \<noteq> []"

text \<open>\<open>setProgress\<close> is the progress callback: each reported value replaces the state's.\<close>

definition setProgress_all :: "event list \<Rightarrow> nat \<Rightarrow> nat" where
  "setProgress_all events p = foldl (\<lambda>p e. case e of Progress n \<Rightarrow> n | _ \<Rightarrow> p) p events"

text \<open>\<open>user?.id\<close> is truthy\<close>

definition signed_in :: "string option \<Rightarrow> bool" where
  "signed_in user = (case user of None \<Rightarrow> False | Some uid \<Rightarrow> uid \<noteq> [])"

definition handleGenerate ::
  "environment \<Rightarrow> (AudioData \<Rightarrow> js_error + db_reply) \<Rightarrow> string option \<Rightarrow> PageState
     \<Rightarrow> PageState \<times> event list"
where
  "handleGenerate env db_insert user st =
     (if \<not> canGenerate st then (st, [])
      else
        let started = st\<lparr>isGenerating := True, progress := 0, error := [],
                         audioUrl_st := None, audioBlob_st := None\<rparr>
        in case generateSpeechWithFallback env (text_st st) (settings st) True of
             (Inl err, events) \<Rightarrow>
               (started\<lparr>progress := setProgress_all events 0,
                        error := (case message err of
                                    None \<Rightarrow> ''Failed to generate audio. Please try again.''
                                  | Some m \<Rightarrow>
                                      if m = [] then ''Failed to generate audio. Please try again.''
                                      else m),
                        isGenerating := False\<rparr>,
                events @ [ConsoleError ''Generation error:'' err])
           | (Inr result, events) \<Rightarrow>
               (started\<lparr>progress := setProgress_all events 0,
                        audioUrl_st := map_option audioUrl result,
                        audioBlob_st := map_option audioBlob result,
                        isGenerating := False\<rparr>,
                events
                @ (if signed_in user then
                     (case saveAudioGeneration db_insert
                             \<lparr>text_content = text_st st, audio_url = None,
                              duration_seconds = map_option duration result,
                              preset_id = currentPresetId st, user_id = the user\<rparr> of
                        (Inl dbError, saved) \<Rightarrow>
                          saved @ [ConsoleWarn ''Failed to save generation to database:'' dbError]
                      | (Inr _, saved) \<Rightarrow> saved)
                   else [])
                @ [SetTimeout 1500]))"

section \<open>AudioPlayer\<close>






section \<open>Concrete inputs\<close>

text \<open>The settings the page starts with, and surroundings for three kinds of run.\<close>

definition initial_settings :: VoiceSettings where
  "initial_settings =
     \<lparr>voiceStyle = ''female'', voiceSpeed = ''normal'', voicePitch = ''medium'',
      emotion = ''neutral'', character = ''chloe''\<rparr>"


definition env_quota :: environment where
  "env_quota =
     \<lparr>VITE_OPENAI_API_KEY = Some ''sk-test'',
      speech_create = (\<lambda>r. Inl (JsError (Some ''You exceeded your current quota''))),
      createObjectURL = (\<lambda>b. ''blob:audio'')\<rparr>"

definition env_ok :: environment where
  "env_ok =
     \<lparr>VITE_OPENAI_API_KEY = Some ''sk-test'',
      speech_create = (\<lambda>r. Inr (Response (Inr [73, 68, 51]))),
      createObjectURL = (\<lambda>b. ''blob:audio'')\<rparr>"

definition hello_world :: utf16 where
  "hello_world = map of_char ''Hello world''"

definition hello :: utf16 where
  "hello = map of_char ''Hello''"

text \<open>A text of \<open>n + 1\<close> one-letter words: \<open>a a ... a\<close>.\<close>

definition letters :: "nat \<Rightarrow> utf16" where
  "letters n = concat (replicate n [97, 32]) @ [97]"

definition db_down :: "AudioData \<Rightarrow> js_error + db_reply" where
  "db_down audioData = Inr (DbReply None (Some (JsError (Some ''permission denied''))))"

definition initial_page :: PageState where
  "initial_page =
     \<lparr>text_st = hello_world, settings = initial_settings, isGenerating = False, progress = 0,
      audioUrl_st = None, audioBlob_st = None, error = [], currentPresetId = None\<rparr>"



section \<open>Rounding\<close>

lemma round_half_even_cases:
  "round_half_even x = \<lfloor>x\<rfloor> \<or> round_half_even x = \<lfloor>x\<rfloor> + 1"
  by (simp add: round_half_even_def Let_def)

lemma round_half_even_near: "\<bar>of_int (round_half_even x) - x\<bar> \<le> 1 / 2"
  unfolding round_half_even_def Let_def
  by (auto simp: abs_if not_less) linarith+

lemma round_half_even_eqI:
  assumes "\<bar>x - of_int m\<bar> < 1 / 2"
  shows "round_half_even x = m"
proof -
  have "\<bar>of_int (round_half_even x) - (of_int m :: rat)\<bar> < 1"
    using round_half_even_near [of x] assms by linarith
  then have "\<bar>of_int (round_half_even x - m) :: rat\<bar> < 1" by simp
  then have "\<bar>round_half_even x - m\<bar> < 1"
    by (metis of_int_abs of_int_less_1_iff)
  then show ?thesis by linarith
qed

lemma round_half_even_of_int [simp]: "round_half_even (of_int n) = n"
  by (rule round_half_even_eqI) simp

lemma round_half_even_mono:
  assumes "x \<le> y"
  shows "round_half_even x \<le> round_half_even y"
proof -
  have fg: "\<lfloor>x\<rfloor> \<le> \<lfloor>y\<rfloor>" using assms by (rule floor_mono)
  show ?thesis
  proof (cases "\<lfloor>x\<rfloor> = \<lfloor>y\<rfloor>")
    case True
    then show ?thesis
      using assms unfolding round_half_even_def Let_def
      by (auto simp: not_less)
  next
    case False
    then have "\<lfloor>x\<rfloor> + 1 \<le> \<lfloor>y\<rfloor>" using fg by linarith
    then show ?thesis
      using round_half_even_cases [of x] round_half_even_cases [of y] by linarith
  qed
qed

lemma binade_bounds:
  assumes "x \<noteq> 0"
  shows "2 powi binade x \<le> \<bar>x\<bar> \<and> \<bar>x\<bar> < 2 powi (binade x + 1)"
proof -
  obtain p q where pq: "quotient_of \<bar>x\<bar> = (p, q)" by (cases "quotient_of \<bar>x\<bar>")
  have q: "0 < q" using pq by (rule quotient_of_denom_pos)
  have xa: "\<bar>x\<bar> = of_int p / of_int q" using pq by (rule quotient_of_div)
  have ax: "0 < \<bar>x\<bar>" using assms by simp
  have p: "0 < p"
    using ax q unfolding xa by (simp add: zero_less_divide_iff)
  define m where "m = floorlog 2 (nat p)"
  define n where "n = floorlog 2 (nat q)"
  have bp: "2 ^ (m - 1) \<le> nat p \<and> nat p < 2 ^ m"
    unfolding m_def using p by (intro floorlog_bounds) auto
  have bq: "2 ^ (n - 1) \<le> nat q \<and> nat q < 2 ^ n"
    unfolding n_def using q by (intro floorlog_bounds) auto
  have m: "0 < m" using p by (simp add: m_def floorlog_def)
  have n: "0 < n" using q by (simp add: n_def floorlog_def)
  let ?P = "of_int p :: rat" and ?Q = "of_int q :: rat"
  define k where "k = int m - int n"
  have P1: "(2::rat) ^ (m - 1) \<le> ?P"
  proof -
    have "of_nat ((2::nat) ^ (m - 1)) \<le> (of_nat (nat p) :: rat)"
      using bp by (simp only: of_nat_le_iff)
    then show ?thesis using p by simp
  qed
  have P2: "?P < (2::rat) ^ m"
  proof -
    have "(of_nat (nat p) :: rat) < of_nat ((2::nat) ^ m)"
      using bp by (simp only: of_nat_less_iff)
    then show ?thesis using p by simp
  qed
  have Q1: "(2::rat) ^ (n - 1) \<le> ?Q"
  proof -
    have "of_nat ((2::nat) ^ (n - 1)) \<le> (of_nat (nat q) :: rat)"
      using bq by (simp only: of_nat_le_iff)
    then show ?thesis using q by simp
  qed
  have Q2: "?Q < (2::rat) ^ n"
  proof -
    have "(of_nat (nat q) :: rat) < of_nat ((2::nat) ^ n)"
      using bq by (simp only: of_nat_less_iff)
    then show ?thesis using q by simp
  qed
  have Qpos: "0 < ?Q" using q by simp
  have Ppos: "0 < ?P" using p by simp
  have up: "(2::rat) powi (k + 1) = 2 ^ m / 2 ^ (n - 1)"
  proof -
    have "k + 1 = int m - int (n - 1)" using n by (simp add: k_def)
    then show ?thesis by (simp add: power_int_diff)
  qed
  have lo: "(2::rat) powi (k - 1) = 2 ^ (m - 1) / 2 ^ n"
  proof -
    have "k - 1 = int (m - 1) - int n" using m by (simp add: k_def)
    then show ?thesis by (simp add: power_int_diff)
  qed
  have upper: "\<bar>x\<bar> < 2 powi (k + 1)"
  proof -
    have "?P / ?Q \<le> ?P / 2 ^ (n - 1)"
      using Q1 Ppos Qpos by (intro divide_left_mono) (auto intro: mult_pos_pos)
    also have "\<dots> < 2 ^ m / 2 ^ (n - 1)"
      using P2 by (intro divide_strict_right_mono) auto
    finally show ?thesis by (simp add: xa up)
  qed
  have lower: "2 powi (k - 1) \<le> \<bar>x\<bar>"
  proof -
    have "(2::rat) ^ (m - 1) / 2 ^ n \<le> ?P / 2 ^ n"
      using P1 by (intro divide_right_mono) auto
    also have "\<dots> \<le> ?P / ?Q"
      using Q2 Ppos Qpos by (intro divide_left_mono) (auto intro: mult_pos_pos)
    finally show ?thesis by (simp add: xa lo)
  qed
  have b: "binade x = (if 2 powi k \<le> \<bar>x\<bar> then k else k - 1)"
    by (simp add: binade_def pq k_def m_def n_def Let_def)
  show ?thesis
  proof (cases "2 powi k \<le> \<bar>x\<bar>")
    case True
    then show ?thesis using upper b by simp
  next
    case False
    then show ?thesis using lower b by simp
  qed
qed

lemma power_int_two_less_iff: "(2::rat) powi a < 2 powi b \<longleftrightarrow> a < b"
  using power_int_increasing [of b a "2::rat"] power_int_strict_increasing [of a b "2::rat"]
  by (cases "a < b") auto

lemma power_int_two_le_iff: "(2::rat) powi a \<le> 2 powi b \<longleftrightarrow> a \<le> b"
  using power_int_increasing [of a b "2::rat"] power_int_strict_increasing [of b a "2::rat"]
  by (cases "a \<le> b") auto

lemma binade_eqI:
  assumes "2 powi e \<le> \<bar>x\<bar>" and "\<bar>x\<bar> < 2 powi (e + 1)"
  shows "binade x = e"
proof -
  have "x \<noteq> 0"
  proof
    assume "x = 0"
    then have "(2::rat) powi e \<le> 0" using assms(1) by simp
    moreover have "(0::rat) < 2 powi e" by simp
    ultimately show False by linarith
  qed
  then have b: "2 powi binade x \<le> \<bar>x\<bar>" "\<bar>x\<bar> < 2 powi (binade x + 1)"
    using binade_bounds by blast+
  have "(2::rat) powi e < 2 powi (binade x + 1)" using assms(1) b(2) by linarith
  then have 1: "e < binade x + 1"
    using power_int_increasing [of "binade x + 1" e "2::rat"] by (cases "e < binade x + 1") auto
  have "(2::rat) powi binade x < 2 powi (e + 1)" using assms(2) b(1) by linarith
  then have 2: "binade x < e + 1"
    using power_int_increasing [of "e + 1" "binade x" "2::rat"] by (cases "binade x < e + 1") auto
  show ?thesis using 1 2 by linarith
qed


lemma fl_zero [simp]: "fl 0 = 0"
  by (simp add: fl_def)

lemma binade_minus [simp]: "binade (- x) = binade x"
  by (simp add: binade_def)

lemma round_half_even_minus: "round_half_even (- x) = - round_half_even x"
proof (cases "\<bar>x - of_int (round_half_even x)\<bar> < 1 / 2")
  case True
  then have "\<bar>- x - of_int (- round_half_even x)\<bar> < 1 / 2"
    by (simp add: abs_minus_commute)
  then show ?thesis by (rule round_half_even_eqI)
next
  case False
  then have tie: "x - of_int \<lfloor>x\<rfloor> = 1 / 2"
    unfolding round_half_even_def Let_def
    by (auto simp: abs_if not_less split: if_splits) linarith+
  then have x: "x = of_int \<lfloor>x\<rfloor> + 1 / 2" by linarith
  have fm: "\<lfloor>- x\<rfloor> = - \<lfloor>x\<rfloor> - 1"
    by (subst x) (simp add: floor_unique)
  show ?thesis
    unfolding round_half_even_def Let_def fm using tie by auto
qed

lemma fl_minus: "fl (- x) = - fl x"
  by (simp add: fl_def Let_def round_half_even_minus)

lemma scaled_bounds:
  assumes "0 < x"
  shows "2 ^ 52 \<le> x / 2 powi (binade x - 52)" and "x / 2 powi (binade x - 52) < 2 ^ 53"
proof -
  have b: "2 powi binade x \<le> x" "x < 2 powi (binade x + 1)"
    using binade_bounds [of x] assms by auto
  have u: "(0::rat) < 2 powi (binade x - 52)" by simp
  have e1: "(2::rat) powi binade x = 2 ^ 52 * 2 powi (binade x - 52)"
    by (simp add: power_int_diff)
  have e2: "(2::rat) powi (binade x + 1) = 2 ^ 53 * 2 powi (binade x - 52)"
    by (simp add: power_int_diff power_int_add)
  show "2 ^ 52 \<le> x / 2 powi (binade x - 52)"
    using b(1) u unfolding e1 by (simp add: pos_le_divide_eq)
  show "x / 2 powi (binade x - 52) < 2 ^ 53"
    using b(2) u unfolding e2 by (simp add: pos_divide_less_eq)
qed

lemma fl_pos_bounds:
  assumes "0 < x"
  shows "2 powi binade x \<le> fl x" and "fl x \<le> 2 powi (binade x + 1)"
proof -
  let ?u = "(2::rat) powi (binade x - 52)"
  have u: "0 < ?u" by simp
  have f: "fl x = of_int (round_half_even (x / ?u)) * ?u"
    using assms by (simp add: fl_def Let_def)
  have "round_half_even (of_int (2 ^ 52)) \<le> round_half_even (x / ?u)"
    using scaled_bounds(1) [OF assms] by (intro round_half_even_mono) simp
  then have lo: "(2::rat) ^ 52 \<le> of_int (round_half_even (x / ?u))"
    unfolding round_half_even_of_int by (metis of_int_le_iff of_int_numeral of_int_power)
  have "round_half_even (x / ?u) \<le> round_half_even (of_int (2 ^ 53))"
    using scaled_bounds(2) [OF assms] by (intro round_half_even_mono) simp
  then have hi: "of_int (round_half_even (x / ?u)) \<le> (2::rat) ^ 53"
    unfolding round_half_even_of_int by (metis of_int_le_iff of_int_numeral of_int_power)
  have e1: "(2::rat) powi binade x = 2 ^ 52 * ?u"
    by (simp add: power_int_diff)
  have e2: "(2::rat) powi (binade x + 1) = 2 ^ 53 * ?u"
    by (simp add: power_int_diff power_int_add)
  show "2 powi binade x \<le> fl x"
    unfolding f e1 using lo u by (intro mult_right_mono) auto
  show "fl x \<le> 2 powi (binade x + 1)"
    unfolding f e2 using hi u by (intro mult_right_mono) auto
qed

lemma fl_pos: "0 < x \<Longrightarrow> 0 < fl x"
  using fl_pos_bounds(1) [of x] zero_less_power_int [of "2::rat" "binade x"] by linarith

lemma fl_mono_pos:
  assumes "0 < x" and "x \<le> y"
  shows "fl x \<le> fl y"
proof -
  have y: "0 < y" using assms by linarith
  have bx: "2 powi binade x \<le> x" "x < 2 powi (binade x + 1)"
    using binade_bounds [of x] assms by auto
  have by': "2 powi binade y \<le> y" "y < 2 powi (binade y + 1)"
    using binade_bounds [of y] y by auto
  have "(2::rat) powi binade x < 2 powi (binade y + 1)"
    using bx(1) by'(2) assms(2) by linarith
  then have le: "binade x \<le> binade y" by (simp add: power_int_two_less_iff)
  show ?thesis
  proof (cases "binade x = binade y")
    case True
    let ?u = "(2::rat) powi (binade y - 52)"
    have u: "0 < ?u" by simp
    have "x / ?u \<le> y / ?u" using assms(2) u by (simp add: divide_right_mono)
    then have "round_half_even (x / ?u) \<le> round_half_even (y / ?u)"
      by (rule round_half_even_mono)
    then have "(of_int (round_half_even (x / ?u)) :: rat) * ?u \<le> of_int (round_half_even (y / ?u)) * ?u"
      using u by (intro mult_right_mono) auto
    then show ?thesis using assms(1) y True by (simp add: fl_def Let_def)
  next
    case False
    then have "binade x + 1 \<le> binade y" using le by linarith
    then have "(2::rat) powi (binade x + 1) \<le> 2 powi binade y"
      by (simp add: power_int_two_le_iff)
    then show ?thesis
      using fl_pos_bounds(2) [OF assms(1)] fl_pos_bounds(1) [OF y] by linarith
  qed
qed

lemma fl_nonneg: "0 \<le> x \<Longrightarrow> 0 \<le> fl x"
  using fl_pos [of x] by (cases "x = 0") auto

lemma fl_mono:
  assumes "x \<le> y"
  shows "fl x \<le> fl y"
proof -
  consider "0 < x" | "x \<le> 0" "0 \<le> y" | "y < 0" by linarith
  then show ?thesis
  proof cases
    case 1
    then show ?thesis using assms by (rule fl_mono_pos)
  next
    case 2
    have "fl x \<le> 0" using fl_nonneg [of "- x"] 2(1) by (simp add: fl_minus)
    moreover have "0 \<le> fl y" using 2(2) by (rule fl_nonneg)
    ultimately show ?thesis by linarith
  next
    case 3
    have "fl (- y) \<le> fl (- x)" using 3 assms by (intro fl_mono_pos) auto
    then show ?thesis by (simp add: fl_minus)
  qed
qed

lemma fl_eqI:
  assumes "2 powi e \<le> \<bar>x\<bar>" and "\<bar>x\<bar> < 2 powi (e + 1)"
    and "\<bar>x / 2 powi (e - 52) - of_int m\<bar> < 1 / 2"
  shows "fl x = of_int m * 2 powi (e - 52)"
proof -
  have b: "binade x = e" using assms(1,2) by (rule binade_eqI)
  have "x \<noteq> 0"
  proof
    assume "x = 0"
    then have "(2::rat) powi e \<le> 0" using assms(1) by simp
    moreover have "(0::rat) < 2 powi e" by simp
    ultimately show False by linarith
  qed
  moreover have "round_half_even (x / 2 powi (e - 52)) = m"
    using assms(3) by (rule round_half_even_eqI)
  ultimately show ?thesis by (simp add: fl_def Let_def b)
qed

text \<open>The relative error of one rounding is at most \<open>1 / 2 ^ 53\<close>.\<close>

lemma fl_error:
  "\<bar>fl x - x\<bar> \<le> \<bar>x\<bar> / 2 ^ 53"
proof (cases "x = 0")
  case True
  then show ?thesis by simp
next
  case False
  let ?u = "(2::rat) powi (binade x - 52)"
  have u: "0 < ?u" by simp
  have f: "fl x = of_int (round_half_even (x / ?u)) * ?u"
    using False by (simp add: fl_def Let_def)
  have "fl x - x = (of_int (round_half_even (x / ?u)) - x / ?u) * ?u"
    using u by (simp add: f left_diff_distrib)
  then have "\<bar>fl x - x\<bar> = \<bar>of_int (round_half_even (x / ?u)) - x / ?u\<bar> * ?u"
    using u by (simp add: abs_mult)
  also have "\<dots> \<le> 1 / 2 * ?u"
    using round_half_even_near [of "x / ?u"] u by (intro mult_right_mono) auto
  finally have 1: "\<bar>fl x - x\<bar> \<le> ?u / 2" by simp
  have "(2::rat) powi binade x = 2 ^ 52 * ?u"
    by (simp add: power_int_diff)
  then have "2 ^ 52 * ?u \<le> \<bar>x\<bar>"
    using binade_bounds [OF False] by simp
  then have "?u / 2 \<le> \<bar>x\<bar> / 2 ^ 53" by simp
  then show ?thesis using 1 by linarith
qed

lemma fl_exact:
  assumes "2 powi e \<le> \<bar>x\<bar>" and "\<bar>x\<bar> < 2 powi (e + 1)"
    and "x / 2 powi (e - 52) = of_int m"
  shows "fl x = x"
proof -
  have "\<bar>x / 2 powi (e - 52) - of_int m\<bar> < 1 / 2" using assms(3) by simp
  then have "fl x = of_int m * 2 powi (e - 52)"
    using assms(1,2) by (intro fl_eqI)
  also have "\<dots> = x" using assms(3) [symmetric] by simp
  finally show ?thesis .
qed

lemma fl_one [simp]: "fl 1 = 1"
  using fl_exact [of 0 1 "2 ^ 52"] by simp

section \<open>Facts about the text helpers\<close>

lemma progress_values_append [simp]:
  "progress_values (xs @ ys) = progress_values xs @ progress_values ys"
  by (simp add: progress_values_def)

lemma progress_values_simps [simp]:
  "progress_values [] = []"
  "progress_values (Progress n # es) = n # progress_values es"
  "progress_values (VendorRequest r # es) = progress_values es"
  "progress_values (ConsoleError s e # es) = progress_values es"
  "progress_values (ConsoleWarn s e # es) = progress_values es"
  "progress_values (SetTimeout d # es) = progress_values es"
  by (simp_all add: progress_values_def)

lemma vendor_requests_append [simp]:
  "vendor_requests (xs @ ys) = vendor_requests xs @ vendor_requests ys"
  by (simp add: vendor_requests_def)

lemma vendor_requests_simps [simp]:
  "vendor_requests [] = []"
  "vendor_requests (Progress n # es) = vendor_requests es"
  "vendor_requests (VendorRequest r # es) = r # vendor_requests es"
  "vendor_requests (ConsoleError s e # es) = vendor_requests es"
  "vendor_requests (ConsoleWarn s e # es) = vendor_requests es"
  "vendor_requests (SetTimeout d # es) = vendor_requests es"
  by (simp_all add: vendor_requests_def)

lemma trim_hello_world: "trim hello_world = hello_world"
  by (simp add: trim_def hello_world_def is_ws_def)

lemma trim_hello: "trim hello = hello"
  by (simp add: trim_def hello_def is_ws_def)

lemma wordCount_hello_world: "wordCount hello_world = 2"
  by (simp add: wordCount_def trim_hello_world) (simp add: hello_world_def is_ws_def)

lemma wordCount_hello: "wordCount hello = 1"
  by (simp add: wordCount_def trim_hello) (simp add: hello_def is_ws_def)

lemma mapVoiceSettings_initial:
  "mapVoiceSettings initial_settings = \<lparr>voice = Str ''alloy'', speed = Num 1, model = ''tts-1''\<rparr>"
  by (simp add: mapVoiceSettings_def initial_settings_def get_property_def voiceMapping_def
      speedMapping_def js_or_def)

lemma generateSpeech_env_ok:
  "generateSpeech env_ok hello_world initial_settings True =
     (Inr \<lparr>audioUrl = ''blob:audio'', audioBlob = [73, 68, 51],
           duration = estimatedDuration (wordCount hello_world), fileSize = 3, format = ''mp3''\<rparr>,
      [Progress 10, Progress 30,
       VendorRequest \<lparr>req_model = ''tts-1'', req_voice = Str ''alloy'', req_input = hello_world,
                      req_speed = Num 1, response_format = ''mp3''\<rparr>,
       Progress 70, Progress 90, Progress 100])"
proof -
  have "hello_world \<noteq> []" by (simp add: hello_world_def)
  then show ?thesis
    by (simp add: generateSpeech_def generateSpeech_try_def env_ok_def key_missing_def
        trim_hello_world report_def mapVoiceSettings_initial)
qed

lemma generateSpeech_env_quota:
  "generateSpeech env_quota hello_world initial_settings True =
     (Inl (JsError (Some ''OpenAI API quota exceeded. Please check your account limits.'')),
      [Progress 10, Progress 30,
       VendorRequest \<lparr>req_model = ''tts-1'', req_voice = Str ''alloy'', req_input = hello_world,
                      req_speed = Num 1, response_format = ''mp3''\<rparr>,
       ConsoleError ''TTS Generation Error:'' (JsError (Some ''You exceeded your current quota''))])"
proof -
  have "hello_world \<noteq> []" by (simp add: hello_world_def)
  then show ?thesis
    by (simp add: generateSpeech_def generateSpeech_try_def env_quota_def key_missing_def
        trim_hello_world report_def mapVoiceSettings_initial generateSpeech_catch_def)
qed

section \<open>The claims\<close>

subsection \<open>Provider fallback\<close>

text \<open>
  The fallback provider never rejects, so \<open>generateSpeechWithFallback\<close> never fails: the
  branch that throws the aggregated error is unreachable.
\<close>

lemma generateSpeechWithFallback_never_fails:
  "\<not> isl (fst (generateSpeechWithFallback env txt voiceSettings onProgress))"
  by (simp add: generateSpeechWithFallback_def generateSpeechWithGoogleCloud_def Let_def
      split: prod.splits sum.splits)

lemma generateSpeechWithFallback_primary_failure:
  "isl (fst (generateSpeech env txt voiceSettings onProgress))
     \<Longrightarrow> fst (generateSpeechWithFallback env txt voiceSettings onProgress) = Inr None"
  by (auto simp: generateSpeechWithFallback_def generateSpeechWithGoogleCloud_def Let_def
      split: prod.splits sum.splits)

text \<open>
  C1. The claim: when the primary provider fails, the fallback fails too (it is a
  placeholder that always throws), and the caller receives the one aggregated error
  "Both OpenAI and Google Cloud TTS services are unavailable". The code on the input
  "Hello world" with a vendor that rejects the request over quota: the primary call fails,
  the fallback resolves with \<open>undefined\<close>, and so does \<open>generateSpeechWithFallback\<close>; no
  error reaches the caller.
\<close>

theorem generateSpeechWithFallback_quota_resolves_undefined:
  "generateSpeechWithFallback env_quota hello_world initial_settings True =
     (Inr None,
      [Progress 10, Progress 30,
       VendorRequest \<lparr>req_model = ''tts-1'', req_voice = Str ''alloy'', req_input = hello_world,
                      req_speed = Num 1, response_format = ''mp3''\<rparr>,
       ConsoleError ''TTS Generation Error:'' (JsError (Some ''You exceeded your current quota'')),
       ConsoleWarn ''OpenAI TTS failed, attempting Google Cloud TTS fallback:''
         (JsError (Some ''OpenAI API quota exceeded. Please check your account limits.''))])"
  by (simp add: generateSpeechWithFallback_def generateSpeech_env_quota
      generateSpeechWithGoogleCloud_def)

subsection \<open>Failing fast\<close>




subsection \<open>Vendor parameters\<close>

lemma get_property_None:
  "k \<notin> fst ` set own \<Longrightarrow> k \<notin> set objectPrototypeKeys \<Longrightarrow> get_property own k = None"
proof -
  assume "k \<notin> fst ` set own" and p: "k \<notin> set objectPrototypeKeys"
  then have "map_of own k = None" by (simp add: map_of_eq_None_iff)
  then show ?thesis using p by (simp add: get_property_def)
qed

text \<open>
  Known keys map by the tables, and a key that is neither in a table nor the name of an
  inherited property gets the default.
\<close>

lemma mapVoiceSettings_known_characters:
  "voice (mapVoiceSettings (s\<lparr>character := ''chloe''\<rparr>)) = Str ''alloy''"
  "voice (mapVoiceSettings (s\<lparr>character := ''kelly''\<rparr>)) = Str ''echo''"
  "voice (mapVoiceSettings (s\<lparr>character := ''racheal''\<rparr>)) = Str ''fable''"
  "voice (mapVoiceSettings (s\<lparr>character := ''david''\<rparr>)) = Str ''onyx''"
  "voice (mapVoiceSettings (s\<lparr>character := ''alex''\<rparr>)) = Str ''nova''"
  "voice (mapVoiceSettings (s\<lparr>character := ''sarah''\<rparr>)) = Str ''shimmer''"
  by (simp_all add: mapVoiceSettings_def get_property_def voiceMapping_def js_or_def)

lemma mapVoiceSettings_known_speeds:
  "speed (mapVoiceSettings (s\<lparr>voiceSpeed := ''slow''\<rparr>)) = Num (3 / 4)"
  "speed (mapVoiceSettings (s\<lparr>voiceSpeed := ''normal''\<rparr>)) = Num 1"
  "speed (mapVoiceSettings (s\<lparr>voiceSpeed := ''fast''\<rparr>)) = Num (5 / 4)"
  by (simp_all add: mapVoiceSettings_def get_property_def speedMapping_def js_or_def)

lemma mapVoiceSettings_defaults:
  "character s \<notin> fst ` set voiceMapping \<Longrightarrow> character s \<notin> set objectPrototypeKeys
     \<Longrightarrow> voice (mapVoiceSettings s) = Str ''alloy''"
  "voiceSpeed s \<notin> fst ` set speedMapping \<Longrightarrow> voiceSpeed s \<notin> set objectPrototypeKeys
     \<Longrightarrow> speed (mapVoiceSettings s) = Num 1"
  by (simp_all add: mapVoiceSettings_def get_property_None js_or_def)

text \<open>
  C3. The claim: a character that is not one of the six known ones maps to the voice
  \<open>alloy\<close>, and a speed label that is not \<open>slow\<close>, \<open>normal\<close> or \<open>fast\<close> maps to \<open>1.0\<close>. The
  code on the character \<open>constructor\<close> and the speed label \<open>toString\<close>: both lookups find
  the member inherited from \<open>Object.prototype\<close>, which is truthy, so the default is not
  taken and the voice and the speed are those members.
\<close>

theorem mapVoiceSettings_inherited_keys:
  "mapVoiceSettings (initial_settings\<lparr>character := ''constructor'', voiceSpeed := ''toString''\<rparr>)
     = \<lparr>voice = Inherited ''constructor'', speed = Inherited ''toString'', model = ''tts-1''\<rparr>"
  by (simp add: mapVoiceSettings_def initial_settings_def get_property_def voiceMapping_def
      speedMapping_def objectPrototypeKeys_def js_or_def)

text \<open>
  C10. The mapped vendor parameters depend on the character and the speed label only:
  two settings that agree on these two fields map to the same voice, speed and model,
  whatever their style, pitch and emotion.
\<close>

theorem mapVoiceSettings_noninterference:
  "character a = character b \<Longrightarrow> voiceSpeed a = voiceSpeed b
     \<Longrightarrow> mapVoiceSettings a = mapVoiceSettings b"
  by (simp add: mapVoiceSettings_def)

theorem mapVoiceSettings_noninterference_witness:
  "character (initial_settings\<lparr>voiceStyle := ''male'', voicePitch := ''high'', emotion := ''sad''\<rparr>)
     = character initial_settings
   \<and> voiceSpeed (initial_settings\<lparr>voiceStyle := ''male'', voicePitch := ''high'', emotion := ''sad''\<rparr>)
     = voiceSpeed initial_settings
   \<and> initial_settings\<lparr>voiceStyle := ''male'', voicePitch := ''high'', emotion := ''sad''\<rparr>
     \<noteq> initial_settings
   \<and> mapVoiceSettings
       (initial_settings\<lparr>voiceStyle := ''male'', voicePitch := ''high'', emotion := ''sad''\<rparr>)
     = mapVoiceSettings initial_settings"
  using mapVoiceSettings_noninterference
    [of "initial_settings\<lparr>voiceStyle := ''male'', voicePitch := ''high'', emotion := ''sad''\<rparr>"
        initial_settings]
  by (simp add: initial_settings_def)

subsection \<open>Progress reports\<close>

text \<open>
  C6. The values \<open>generateSpeech\<close> passes to the progress callback are in non-decreasing
  order. On success, with a callback, they are exactly 10, 30, 70, 90, 100. On failure
  they are a prefix of that sequence that stops before 100 (nothing, or 10, 30, or
  10, 30, 70), and the run ends with the log of the \<open>catch\<close> block: no progress call
  follows the failure.
\<close>

theorem generateSpeech_progress_sequence:
  "sorted (progress_values (snd (generateSpeech env txt voiceSettings onProgress)))
   \<and> (\<not> isl (fst (generateSpeech env txt voiceSettings onProgress)) \<and> onProgress \<longrightarrow>
        progress_values (snd (generateSpeech env txt voiceSettings onProgress))
          = [10, 30, 70, 90, 100])
   \<and> (isl (fst (generateSpeech env txt voiceSettings onProgress)) \<longrightarrow>
        progress_values (snd (generateSpeech env txt voiceSettings onProgress))
          \<in> {[], [10, 30], [10, 30, 70]}
        \<and> (\<exists>before e. snd (generateSpeech env txt voiceSettings onProgress)
               = before @ [ConsoleError ''TTS Generation Error:'' e]))"
  by (auto simp: generateSpeech_def generateSpeech_try_def Let_def report_def
      split: sum.splits)

theorem generateSpeech_progress_sequence_witness:
  "\<not> isl (fst (generateSpeech env_ok hello_world initial_settings True))
   \<and> progress_values (snd (generateSpeech env_ok hello_world initial_settings True))
       = [10, 30, 70, 90, 100]
   \<and> isl (fst (generateSpeech env_quota hello_world initial_settings True))
   \<and> progress_values (snd (generateSpeech env_quota hello_world initial_settings True))
       \<in> {[], [10, 30], [10, 30, 70]}"
  using generateSpeech_progress_sequence [of env_ok hello_world initial_settings True]
    generateSpeech_progress_sequence [of env_quota hello_world initial_settings True]
  by (simp add: generateSpeech_env_ok generateSpeech_env_quota)

subsection \<open>Persistence\<close>

text \<open>
  C9. When the generation succeeds for a signed-in user and saving the record fails, the
  page still holds the audio (URL and bytes), shows no error, is no longer generating, and
  the persistence error is logged as a warning.
\<close>

theorem handleGenerate_save_failure_harmless:
  assumes "canGenerate st" and "signed_in user"
    and "generateSpeechWithFallback env (text_st st) (settings st) True
           = (Inr (Some result), events)"
    and "fst (saveAudioGeneration db_insert
           \<lparr>text_content = text_st st, audio_url = None,
            duration_seconds = Some (duration result), preset_id = currentPresetId st,
            user_id = the user\<rparr>) = Inl dbError"
  shows "audioUrl_st (fst (handleGenerate env db_insert user st)) = Some (audioUrl result)
       \<and> audioBlob_st (fst (handleGenerate env db_insert user st)) = Some (audioBlob result)
       \<and> error (fst (handleGenerate env db_insert user st)) = []
       \<and> \<not> isGenerating (fst (handleGenerate env db_insert user st))
       \<and> ConsoleWarn ''Failed to save generation to database:'' dbError
            \<in> set (snd (handleGenerate env db_insert user st))"
proof -
  obtain saved where s: "saveAudioGeneration db_insert
           \<lparr>text_content = text_st st, audio_url = None,
            duration_seconds = Some (duration result), preset_id = currentPresetId st,
            user_id = the user\<rparr> = (Inl dbError, saved)"
    using assms(4) by (metis prod.collapse)
  show ?thesis
    using assms(1,2) by (simp add: handleGenerate_def Let_def assms(3) s)
qed

theorem handleGenerate_save_failure_harmless_witness:
  "canGenerate initial_page \<and> signed_in (Some ''user-1'')
   \<and> fst (saveAudioGeneration db_down
        \<lparr>text_content = hello_world, audio_url = None,
         duration_seconds = Some (estimatedDuration (wordCount hello_world)),
         preset_id = None, user_id = ''user-1''\<rparr>)
       = Inl (JsError (Some ''permission denied''))
   \<and> audioUrl_st (fst (handleGenerate env_ok db_down (Some ''user-1'') initial_page))
       = Some ''blob:audio''
   \<and> audioBlob_st (fst (handleGenerate env_ok db_down (Some ''user-1'') initial_page))
       = Some [73, 68, 51]
   \<and> error (fst (handleGenerate env_ok db_down (Some ''user-1'') initial_page)) = []
   \<and> \<not> isGenerating (fst (handleGenerate env_ok db_down (Some ''user-1'') initial_page))
   \<and> ConsoleWarn ''Failed to save generation to database:''
        (JsError (Some ''permission denied''))
        \<in> set (snd (handleGenerate env_ok db_down (Some ''user-1'') initial_page))"
proof -
  have c: "canGenerate initial_page"
    by (simp add: canGenerate_def initial_page_def initial_settings_def trim_hello_world)
      (simp add: hello_world_def)
  have s: "signed_in (Some ''user-1'')"
    by (simp add: signed_in_def)
  have g: "generateSpeechWithFallback env_ok (text_st initial_page) (settings initial_page) True
      = (Inr (Some \<lparr>audioUrl = ''blob:audio'', audioBlob = [73, 68, 51],
                    duration = estimatedDuration (wordCount hello_world), fileSize = 3,
                    format = ''mp3''\<rparr>),
         [Progress 10, Progress 30,
          VendorRequest \<lparr>req_model = ''tts-1'', req_voice = Str ''alloy'',
                         req_input = hello_world, req_speed = Num 1,
                         response_format = ''mp3''\<rparr>,
          Progress 70, Progress 90, Progress 100])"
    by (simp add: generateSpeechWithFallback_def initial_page_def generateSpeech_env_ok)
  have d: "fst (saveAudioGeneration db_down
        \<lparr>text_content = text_st initial_page, audio_url = None,
         duration_seconds = Some (duration \<lparr>audioUrl = ''blob:audio'', audioBlob = [73, 68, 51],
                    duration = estimatedDuration (wordCount hello_world), fileSize = 3,
                    format = ''mp3''\<rparr>),
         preset_id = currentPresetId initial_page, user_id = the (Some ''user-1'')\<rparr>)
       = Inl (JsError (Some ''permission denied''))"
    by (simp add: saveAudioGeneration_def db_down_def)
  show ?thesis
    using handleGenerate_save_failure_harmless [OF c s g d] c s d
    by (simp add: initial_page_def)
qed

subsection \<open>Volume\<close>




subsection \<open>Duration estimate\<close>

lemma generateSpeech_duration:
  assumes "fst (generateSpeech env txt voiceSettings onProgress) = Inr result"
  shows "duration result = estimatedDuration (wordCount txt)"
  using assms
  by (auto simp: generateSpeech_def generateSpeech_try_def Let_def split: sum.splits if_splits)

lemma generateSpeech_env_ok_duration:
  assumes "trim txt \<noteq> []"
  shows "fst (generateSpeech env_ok txt initial_settings True) =
     Inr \<lparr>audioUrl = ''blob:audio'', audioBlob = [73, 68, 51],
          duration = estimatedDuration (wordCount txt), fileSize = 3, format = ''mp3''\<rparr>"
  using assms
  by (simp add: generateSpeech_def generateSpeech_try_def env_ok_def key_missing_def Let_def)

lemma estimatedDuration_mono:
  assumes "m \<le> n"
  shows "estimatedDuration m \<le> estimatedDuration n"
proof -
  have "(of_nat m :: rat) / 150 \<le> of_nat n / 150"
    using assms by (simp add: divide_right_mono)
  then have "fl (of_nat m / 150) \<le> fl (of_nat n / 150)" by (rule fl_mono)
  then have "fl (of_nat m / 150) * 60 \<le> fl (of_nat n / 150) * 60" by simp
  then have "fl (fl (of_nat m / 150) * 60) \<le> fl (fl (of_nat n / 150) * 60)" by (rule fl_mono)
  then show ?thesis unfolding estimatedDuration_def by (rule ceiling_mono)
qed

text \<open>The two-word text of the specification's scenario is estimated at one second.\<close>

lemma estimatedDuration_2: "estimatedDuration 2 = 1"
proof -
  have a: "fl (of_nat 2 / 150) = 7686143364045647 / 2 ^ 59"
    using fl_eqI [of "- 7" "of_nat 2 / 150" 7686143364045647] by simp
  have b: "fl (7686143364045647 / 2 ^ 59 * 60) = 7205759403792794 / 2 ^ 53"
    using fl_eqI [of "- 1" "7686143364045647 / 2 ^ 59 * 60" 7205759403792794] by simp
  have c: "\<lceil>7205759403792794 / 2 ^ 53 :: rat\<rceil> = 1"
    by (rule ceiling_unique) simp_all
  show ?thesis
    unfolding estimatedDuration_def a b by (rule c)
qed

lemma estimatedDuration_hello_world: "estimatedDuration (wordCount hello_world) = 1"
  by (simp only: wordCount_hello_world estimatedDuration_2)

lemma estimatedDuration_155: "estimatedDuration 155 = 63"
proof -
  have a: "fl (of_nat 155 / 150) = 4653719614949513 / 2 ^ 52"
    using fl_eqI [of 0 "of_nat 155 / 150" 4653719614949513] by simp
  have b: "fl (4653719614949513 / 2 ^ 52 * 60) = 8725724278030337 / 2 ^ 47"
    using fl_eqI [of 5 "4653719614949513 / 2 ^ 52 * 60" 8725724278030337] by simp
  have c: "\<lceil>8725724278030337 / 2 ^ 47 :: rat\<rceil> = 63"
    by (rule ceiling_unique) simp_all
  show ?thesis
    unfolding estimatedDuration_def a b by (rule c)
qed

text \<open>
  How far the estimate can be from the exact ceiling: for up to \<open>2 ^ 49\<close> words it is the
  ceiling of \<open>word_count / 150 \<times> 60\<close> or one more, and it is that ceiling whenever the
  word count is not a multiple of 5.
\<close>

lemma estimatedDuration_close:
  assumes "n \<le> 2 ^ 49"
  shows "\<lceil>of_nat n / 150 * 60 :: rat\<rceil> \<le> estimatedDuration n"
    and "estimatedDuration n \<le> \<lceil>of_nat n / 150 * 60 :: rat\<rceil> + 1"
    and "\<not> 5 dvd n \<Longrightarrow> estimatedDuration n = \<lceil>of_nat n / 150 * 60 :: rat\<rceil>"
proof -
  define x :: rat where "x = of_nat n / 150"
  define q where "q = fl x"
  define p where "p = fl (q * 60)"
  define E :: rat where "E = of_nat n / 150 * 60"
  define c where "c = \<lceil>E\<rceil>"
  have x0: "0 \<le> x" by (simp add: x_def)
  have q0: "0 \<le> q" unfolding q_def using x0 by (rule fl_nonneg)
  have eq: "\<bar>q - x\<bar> \<le> x / 2 ^ 53"
    using fl_error [of x] x0 by (simp add: q_def)
  have ep: "\<bar>p - q * 60\<bar> \<le> q * 60 / 2 ^ 53"
    using fl_error [of "q * 60"] q0 by (simp add: p_def)
  have nb: "(of_nat n :: rat) \<le> 2 ^ 49"
  proof -
    have "(of_nat n :: rat) \<le> of_nat (2 ^ 49)" using assms by (simp only: of_nat_le_iff)
    then show ?thesis by simp
  qed
  have Ex: "E = x * 60" by (simp add: E_def x_def)
  have xb: "x \<le> 2 ^ 49 / 150" using nb by (simp add: x_def)
  have "x / 2 ^ 53 \<le> x" using x0 by (simp add: divide_le_eq)
  then have qx: "q \<le> 2 * x" using eq by linarith
  have "p - E = (p - q * 60) + 60 * (q - x)"
    unfolding Ex by (simp add: algebra_simps)
  then have "\<bar>p - E\<bar> \<le> \<bar>p - q * 60\<bar> + \<bar>60 * (q - x)\<bar>"
    using abs_triangle_ineq [of "p - q * 60" "60 * (q - x)"] by simp
  moreover have "\<bar>60 * (q - x)\<bar> = 60 * \<bar>q - x\<bar>"
    by (simp only: abs_mult abs_numeral)
  ultimately have "\<bar>p - E\<bar> \<le> \<bar>p - q * 60\<bar> + 60 * \<bar>q - x\<bar>"
    by (simp only:)
  also have "\<dots> \<le> q * 60 / 2 ^ 53 + 60 * (x / 2 ^ 53)"
    using ep eq by (intro add_mono mult_left_mono) simp_all
  also have "\<dots> = (q * 60 + 60 * x) / 2 ^ 53"
    by (simp add: add_divide_distrib)
  also have "\<dots> \<le> (180 * x) / 2 ^ 53"
    using qx by (intro divide_right_mono) simp_all
  also have "\<dots> \<le> (180 * (2 ^ 49 / 150)) / 2 ^ 53"
    using xb by (intro divide_right_mono mult_left_mono) simp_all
  also have "\<dots> < 1 / 5"
    by simp
  finally have d: "\<bar>p - E\<bar> < 1 / 5" .
  have e: "estimatedDuration n = \<lceil>p\<rceil>"
    by (simp add: estimatedDuration_def p_def q_def x_def)
  have E5: "E = of_int (2 * int n) / 5" by (simp add: E_def)
  have cE: "of_int c - 1 < E" "E \<le> of_int c"
    unfolding c_def by linarith+
  have "(of_int (5 * (c - 1)) :: rat) < of_int (2 * int n)"
    using cE(1) unfolding E5 by simp
  then have "5 * (c - 1) < 2 * int n" by (simp only: of_int_less_iff)
  then have "5 * c - 4 \<le> 2 * int n" by presburger
  then have "(of_int (5 * c - 4) :: rat) \<le> of_int (2 * int n)" by (simp only: of_int_le_iff)
  then have lo: "of_int c - 4 / 5 \<le> E" unfolding E5 by simp
  have "of_int c - 1 < p" using lo d by linarith
  then have 1: "c \<le> \<lceil>p\<rceil>" by linarith
  have "p < of_int c + 1" using cE(2) d by linarith
  then have 2: "\<lceil>p\<rceil> \<le> c + 1" by (simp add: ceiling_le_iff)
  show "\<lceil>of_nat n / 150 * 60 :: rat\<rceil> \<le> estimatedDuration n"
    using 1 by (simp add: e c_def E_def)
  show "estimatedDuration n \<le> \<lceil>of_nat n / 150 * 60 :: rat\<rceil> + 1"
    using 2 by (simp add: e c_def E_def)
  show "estimatedDuration n = \<lceil>of_nat n / 150 * 60 :: rat\<rceil>" if "\<not> 5 dvd n"
  proof -
    have "\<not> 5 dvd 2 * int n"
    proof
      assume "5 dvd 2 * int n"
      moreover have "coprime (5::int) 2" by simp
      ultimately have "5 dvd int n" by (simp add: coprime_dvd_mult_right_iff)
      then show False using that by presburger
    qed
    moreover have "(of_int (2 * int n) :: rat) \<le> of_int (5 * c)"
      using cE(2) unfolding E5 by simp
    then have "2 * int n \<le> 5 * c" by (simp only: of_int_le_iff)
    ultimately have "2 * int n \<le> 5 * c - 1"
      by (cases "2 * int n = 5 * c") auto
    then have "(of_int (2 * int n) :: rat) \<le> of_int (5 * c - 1)" by (simp only: of_int_le_iff)
    then have "E \<le> of_int c - 1 / 5" unfolding E5 by simp
    then have "p < of_int c" using d by linarith
    then have "\<lceil>p\<rceil> \<le> c" by (simp add: ceiling_le_iff)
    then show ?thesis using 1 by (simp add: e c_def E_def)
  qed
qed

lemma letters_Suc: "letters (Suc n) = 97 # 32 # letters n"
  by (simp add: letters_def)

lemma letters_0: "letters 0 = [97]"
  by (simp add: letters_def)

lemma letters_ends: "letters n \<noteq> [] \<and> hd (letters n) = 97 \<and> last (letters n) = 97"
  by (induction n) (simp_all add: letters_Suc letters_0)

lemma trim_id:
  assumes "xs \<noteq> []" and "\<not> is_ws (hd xs)" and "\<not> is_ws (last xs)"
  shows "trim xs = xs"
proof -
  have 1: "dropWhile is_ws xs = xs"
    using assms(1,2) by (cases xs) simp_all
  have "rev xs = rev (butlast xs @ [last xs])"
    using assms(1) by simp
  then have r: "rev xs = last xs # rev (butlast xs)"
    by simp
  have 2: "dropWhile is_ws (rev xs) = rev xs"
    by (subst (1 2) r) (simp add: assms(3))
  show ?thesis by (simp add: trim_def 1 2)
qed

lemma trim_letters: "trim (letters n) = letters n"
  using letters_ends [of n] by (intro trim_id) (simp_all add: is_ws_def)

lemma length_split_ws_letters: "length (split_ws (letters n)) = Suc n"
proof (induction n)
  case 0
  show ?case by (simp add: letters_0 is_ws_def)
next
  case (Suc n)
  obtain d ds where l: "letters n = d # ds" and d: "d = 97"
    using letters_ends [of n] by (cases "letters n") auto
  have ws: "is_ws 32" "\<not> is_ws 97" by (simp_all add: is_ws_def)
  have s: "split_ws (32 # letters n) = [] # split_ws (letters n)"
    using ws by (simp add: l d)
  have "split_ws (97 # 32 # letters n)
      = (case split_ws (32 # letters n) of [] \<Rightarrow> [[97]] | w # ws \<Rightarrow> (97 # w) # ws)"
    by (subst split_ws.simps(2)) (simp add: ws del: split_ws.simps)
  then have "split_ws (letters (Suc n)) = [97] # split_ws (letters n)"
    by (simp add: letters_Suc s del: split_ws.simps)
  then show ?case
    using Suc.IH by simp
qed

lemma wordCount_letters: "wordCount (letters n) = Suc n"
  by (simp add: wordCount_def trim_letters length_split_ws_letters)

text \<open>
  C4. The claim: the estimate is the ceiling of \<open>word_count / 150 \<times> 60\<close>. The code on a text
  of 155 words (\<open>a a ... a\<close>): the quotient \<open>155 / 150\<close> is rounded to a double, the product
  with 60 is rounded again and lies just above 62, so
  \<open>Math.ceil\<close> gives 63 seconds, where the ceiling of \<open>155 / 150 \<times> 60 = 62\<close> is 62.
\<close>

theorem generateSpeech_duration_155_words:
  "wordCount (letters 154) = 155
   \<and> fst (generateSpeech env_ok (letters 154) initial_settings True) =
       Inr \<lparr>audioUrl = ''blob:audio'', audioBlob = [73, 68, 51], duration = 63, fileSize = 3,
            format = ''mp3''\<rparr>
   \<and> \<lceil>of_nat (wordCount (letters 154)) / 150 * 60 :: rat\<rceil> = 62"
proof -
  have w: "wordCount (letters 154) = 155" by (simp add: wordCount_letters)
  have t: "trim (letters 154) \<noteq> []"
    using letters_ends [of 154] by (simp add: trim_letters)
  have c: "\<lceil>of_nat 155 / 150 * 60 :: rat\<rceil> = 62" by simp
  show ?thesis
    by (simp only: w generateSpeech_env_ok_duration [OF t] estimatedDuration_155 c)
qed

text \<open>
  C5. The estimate is monotone in the word count: of two successful generations, the one
  whose text has at least as many words has an estimate at least as large.
\<close>

theorem generateSpeech_duration_monotone:
  assumes "fst (generateSpeech env1 txt1 settings1 onProgress1) = Inr result1"
    and "fst (generateSpeech env2 txt2 settings2 onProgress2) = Inr result2"
    and "wordCount txt2 \<le> wordCount txt1"
  shows "duration result2 \<le> duration result1"
  using assms by (simp add: generateSpeech_duration estimatedDuration_mono)

theorem generateSpeech_duration_monotone_witness:
  "fst (generateSpeech env_ok hello_world initial_settings True) =
     Inr \<lparr>audioUrl = ''blob:audio'', audioBlob = [73, 68, 51],
          duration = estimatedDuration (wordCount hello_world), fileSize = 3, format = ''mp3''\<rparr>
   \<and> fst (generateSpeech env_ok hello initial_settings True) =
     Inr \<lparr>audioUrl = ''blob:audio'', audioBlob = [73, 68, 51],
          duration = estimatedDuration (wordCount hello), fileSize = 3, format = ''mp3''\<rparr>
   \<and> wordCount hello \<le> wordCount hello_world
   \<and> estimatedDuration (wordCount hello) \<le> estimatedDuration (wordCount hello_world)"
proof -
  have "hello_world \<noteq> []" by (simp add: hello_world_def)
  then have "trim hello_world \<noteq> []" by (simp add: trim_hello_world)
  then have a: "fst (generateSpeech env_ok hello_world initial_settings True) =
     Inr \<lparr>audioUrl = ''blob:audio'', audioBlob = [73, 68, 51],
          duration = estimatedDuration (wordCount hello_world), fileSize = 3, format = ''mp3''\<rparr>"
    by (rule generateSpeech_env_ok_duration)
  have "hello \<noteq> []" by (simp add: hello_def)
  then have "trim hello \<noteq> []" by (simp add: trim_hello)
  then have b: "fst (generateSpeech env_ok hello initial_settings True) =
     Inr \<lparr>audioUrl = ''blob:audio'', audioBlob = [73, 68, 51],
          duration = estimatedDuration (wordCount hello), fileSize = 3, format = ''mp3''\<rparr>"
    by (rule generateSpeech_env_ok_duration)
  have c: "wordCount hello \<le> wordCount hello_world"
    by (simp add: wordCount_hello wordCount_hello_world)
  show ?thesis
    using generateSpeech_duration_monotone [OF a b c] a b c by simp
qed

subsection \<open>Seeking\<close>






end
